theory Spec2Isabelle
  imports Main
begin

section \<open>The metrics collector of pkg/metrics/collector.go\<close>

text \<open>
  The package holds one guarded container, \<^verbatim>\<open>Collector\<close>, with two slices of
  metric samples and a flag that selects the slice a scrape is served from. The
  specification calls the slices \<^emph>\<open>current\<close> and \<^emph>\<open>stale\<close> and the flag
  \<^emph>\<open>reportStale\<close>; the operations \<^emph>\<open>Describe\<close>, \<^emph>\<open>Collect\<close>, \<^emph>\<open>RecordSample\<close>,
  \<^emph>\<open>BeginCycle\<close> and \<^emph>\<open>EndCycle\<close> are the methods \<^verbatim>\<open>DescribeWithStability\<close>,
  \<^verbatim>\<open>CollectWithStability\<close>, \<^verbatim>\<open>AddMetric\<close>, \<^verbatim>\<open>ClearStoredMetric\<close> and
  \<^verbatim>\<open>FinishedAllChecks\<close>. The definitions below keep the names of the source.
\<close>

subsection \<open>Descriptors\<close>

text \<open>
  \<^verbatim>\<open>metrics.NewDesc(fqName, help, variableLabels, constLabels, stabilityLevel,
  deprecatedVersion)\<close> belongs to the instrumentation library. A descriptor is modelled
  as the record of the six arguments it was built from; \<^verbatim>\<open>nil\<close> constant labels are
  the empty list. Of the library's stability levels the package names \<^verbatim>\<open>ALPHA\<close>
  only.
\<close>

datatype StabilityLevel = INTERNAL | ALPHA | BETA | STABLE

record Desc =
  fqName :: string
  helpText :: string
  variableLabels :: "string list"
  constLabels :: "(string \<times> string) list"
  stabilityLevel :: StabilityLevel
  deprecatedVersion :: string

definition NewDesc ::
  "string \<Rightarrow> string \<Rightarrow> string list \<Rightarrow> (string \<times> string) list \<Rightarrow> StabilityLevel \<Rightarrow> string \<Rightarrow> Desc"
where
  "NewDesc n h vl cl sl dv =
     \<lparr>fqName = n, helpText = h, variableLabels = vl, constLabels = cl,
      stabilityLevel = sl, deprecatedVersion = dv\<rparr>"

text \<open>The label constants of the \<^verbatim>\<open>const\<close> block, with the values the source gives them.\<close>

definition VersionLabel :: string where
  "VersionLabel = ''version''"

definition BuildLabel :: string where
  "BuildLabel = ''build''"

definition ApiVersionLabel :: string where
  "ApiVersionLabel = ''api_version''"

definition vCenterUUID :: string where
  "vCenterUUID = ''uuid''"

definition HwVersionLabel :: string where
  "HwVersionLabel = ''hw_version''"

definition cbtMismatchLabel :: string where
  "cbtMismatchLabel = ''cbt''"

definition EsxiVersionMetric :: Desc where
  "EsxiVersionMetric =
     NewDesc ''vsphere_esxi_version_total''
       ''Number of ESXi hosts with given version.''
       [VersionLabel, ApiVersionLabel] []
       ALPHA ''''"

definition HwVersionMetric :: Desc where
  "HwVersionMetric =
     NewDesc ''vsphere_node_hw_version_total''
       ''Number of vSphere nodes with given HW version.''
       [HwVersionLabel] []
       ALPHA ''''"

definition CbtMismatchMetric :: Desc where
  "CbtMismatchMetric =
     NewDesc ''vsphere_vm_cbt_checks''
       ''Boolean metric based on whether ctkEnabled is consistent or not across all nodes in the cluster.''
       [cbtMismatchLabel] []
       ALPHA ''''"

subsection \<open>Channels\<close>

text \<open>
  \<^verbatim>\<open>DescribeWithStability\<close> and \<^verbatim>\<open>CollectWithStability\<close> hand their results to the
  caller over a send-only channel. A channel is modelled by the sequence of values sent
  on it so far, oldest first; \<^verbatim>\<open>ch <- v\<close> puts \<open>v\<close> at its end. The
  \<^verbatim>\<open>for _, m := range s { ch <- m }\<close> loop of the source is the recursion
  \<open>send_range\<close>.
\<close>

type_synonym 'a chan = "'a list"

definition send :: "'a chan \<Rightarrow> 'a \<Rightarrow> 'a chan" where
  "send ch v = ch @ [v]"

fun send_range :: "'a list \<Rightarrow> 'a chan \<Rightarrow> 'a chan" where
  "send_range [] ch = ch"
| "send_range (m # ms) ch = send_range ms (send ch m)"

subsection \<open>The collector\<close>

text \<open>
  \<^verbatim>\<open>metrics.Metric\<close> is an interface of the library; the collector stores and forwards
  its values and never looks into one, so the sample type is the parameter \<open>'m\<close>.

  Every method that touches the fields holds \<^verbatim>\<open>lock\<close> from its first statement to its
  return, so the methods are atomic with respect to each other and a method is a function
  from the state before the call to the state after it; the lock and the embedded
  \<^verbatim>\<open>BaseStableCollector\<close> carry no data of their own here.

  A Go slice is a view of a backing array, and \<^verbatim>\<open>c.staleMetrics = c.storedMetrics\<close>
  makes both fields view the same array. The only write to an array is the
  \<^verbatim>\<open>append\<close> of \<^verbatim>\<open>AddMetric\<close>, which writes at index \<^verbatim>\<open>len(c.storedMetrics)\<close>
  or into a new array; while the two fields share an array \<^verbatim>\<open>staleMetrics\<close> is never
  longer than \<^verbatim>\<open>storedMetrics\<close>, so no element that \<^verbatim>\<open>staleMetrics\<close> shows is
  overwritten. The two fields therefore behave as two values, and are modelled as lists.
  The model with the backing arrays is given further down, and the lists are proved to be
  what its slices show after every call.
\<close>

record 'm Collector =
  storedMetrics :: "'m list"
  staleMetrics :: "'m list"
  markStaleMetrics :: bool

definition NewMetricsCollector :: "'m Collector" where
  "NewMetricsCollector =
     \<lparr>storedMetrics = [], staleMetrics = [], markStaleMetrics = False\<rparr>"

definition DescribeWithStability :: "'m Collector \<Rightarrow> Desc chan \<Rightarrow> 'm Collector \<times> Desc chan" where
  "DescribeWithStability c ch =
     (let ch1 = send ch EsxiVersionMetric;
          ch2 = send ch1 HwVersionMetric;
          ch3 = send ch2 CbtMismatchMetric
      in (c, ch3))"

definition CollectWithStability :: "'m Collector \<Rightarrow> 'm chan \<Rightarrow> 'm Collector \<times> 'm chan" where
  "CollectWithStability c ch =
     (if markStaleMetrics c
      then (c, send_range (staleMetrics c) ch)
      else (c, send_range (storedMetrics c) ch))"

definition AddMetric :: "'m Collector \<Rightarrow> 'm \<Rightarrow> 'm Collector" where
  "AddMetric c m = c\<lparr>storedMetrics := storedMetrics c @ [m]\<rparr>"

definition ClearStoredMetric :: "'m Collector \<Rightarrow> 'm Collector" where
  "ClearStoredMetric c =
     (let c1 = (if \<not> markStaleMetrics c
                then (c\<lparr>markStaleMetrics := True\<rparr>)\<lparr>staleMetrics := storedMetrics c\<rparr>
                else c)
      in c1\<lparr>storedMetrics := []\<rparr>)"

definition FinishedAllChecks :: "'m Collector \<Rightarrow> 'm Collector" where
  "FinishedAllChecks c = (c\<lparr>staleMetrics := storedMetrics c\<rparr>)\<lparr>markStaleMetrics := False\<rparr>"

subsection \<open>Scrapes and call sequences\<close>

text \<open>
  What one scrape receives: the values \<^verbatim>\<open>CollectWithStability\<close> sends on a channel
  that was empty before the call. Likewise for the descriptors of one registration.
\<close>

definition scrape :: "'m Collector \<Rightarrow> 'm list" where
  "scrape c = snd (CollectWithStability c [])"

definition descriptors :: "'m Collector \<Rightarrow> Desc list" where
  "descriptors c = snd (DescribeWithStability c [])"

text \<open>
  The check runner's calls, and the state after a sequence of them. \<open>BeginCycle\<close>,
  \<open>RecordSample\<close> and \<open>EndCycle\<close> are the specification's names of the three
  writing methods.
\<close>

datatype 'm call = BeginCycle | RecordSample 'm | EndCycle

fun call_step :: "'m Collector \<Rightarrow> 'm call \<Rightarrow> 'm Collector" where
  "call_step c BeginCycle = ClearStoredMetric c"
| "call_step c (RecordSample m) = AddMetric c m"
| "call_step c EndCycle = FinishedAllChecks c"

fun run :: "'m Collector \<Rightarrow> 'm call list \<Rightarrow> 'm Collector" where
  "run c [] = c"
| "run c (k # ks) = run (call_step c k) ks"

text \<open>
  A call sequence holds a completed cycle when an \<open>EndCycle\<close> follows a
  \<open>BeginCycle\<close>; the flag tells whether a \<open>BeginCycle\<close> was seen.
\<close>

fun completed_cycle :: "bool \<Rightarrow> 'm call list \<Rightarrow> bool" where
  "completed_cycle opened [] = False"
| "completed_cycle opened (BeginCycle # ks) = completed_cycle True ks"
| "completed_cycle opened (RecordSample m # ks) = completed_cycle opened ks"
| "completed_cycle opened (EndCycle # ks) = (opened \<or> completed_cycle opened ks)"

text \<open>
  Every \<open>EndCycle\<close> of the sequence finds at least one sample in \<open>storedMetrics\<close>:
  no cycle is committed empty.
\<close>

fun commits_nonempty :: "'m Collector \<Rightarrow> 'm call list \<Rightarrow> bool" where
  "commits_nonempty c [] = True"
| "commits_nonempty c (k # ks) =
     ((k \<noteq> EndCycle \<or> storedMetrics c \<noteq> []) \<and> commits_nonempty (call_step c k) ks)"

text \<open>
  The generations that the \<open>EndCycle\<close> calls of a sequence commit, oldest first:
  \<^verbatim>\<open>FinishedAllChecks\<close> declares the \<^verbatim>\<open>storedMetrics\<close> it finds complete.
\<close>

fun committed :: "'m Collector \<Rightarrow> 'm call list \<Rightarrow> 'm list list" where
  "committed c [] = []"
| "committed c (k # ks) =
     (if k = EndCycle then [storedMetrics c] else []) @ committed (call_step c k) ks"

text \<open>
  The samples of the \<open>RecordSample\<close> calls at the head of a sequence, up to the first
  call of another method. For the calls that follow an \<open>EndCycle\<close> these are the
  samples recorded after it and before the next \<open>BeginCycle\<close>.
\<close>

fun late_samples :: "'m call list \<Rightarrow> 'm list" where
  "late_samples (RecordSample m # ks) = m # late_samples ks"
| "late_samples ks = []"

subsection \<open>The slices behind the lists\<close>

text \<open>
  The same methods on Go's representation of a slice: a pointer to a backing array, a
  length and a capacity. The memory is a map from addresses to arrays and the first
  address not yet allocated. The composite literal \<^verbatim>\<open>[]metrics.Metric{}\<close> is the
  slice of length and capacity 0 at address 0, whose array is empty and never written.
  \<^verbatim>\<open>append\<close> writes in place when the capacity allows it and otherwise moves the
  elements to a new array; the language leaves the new capacity to the runtime, so the
  growth policy \<open>grow\<close> is a parameter (the new array always has room for the
  element), and so is the zero value that fills the cells not yet written.
\<close>

type_synonym addr = nat

record slice =
  ptr :: addr
  len :: nat
  cap :: nat

record 'm CollectorMem =
  arrays :: "addr \<Rightarrow> 'm list"
  next_addr :: addr
  storedSlice :: slice
  staleSlice :: slice
  markStale :: bool

definition empty_slice :: slice where
  "empty_slice = \<lparr>ptr = 0, len = 0, cap = 0\<rparr>"

definition view :: "(addr \<Rightarrow> 'm list) \<Rightarrow> slice \<Rightarrow> 'm list" where
  "view h s = take (len s) (h (ptr s))"

definition mem_New :: "'m CollectorMem" where
  "mem_New =
     \<lparr>arrays = (\<lambda>a. []), next_addr = 1, storedSlice = empty_slice,
      staleSlice = empty_slice, markStale = False\<rparr>"

definition mem_AddMetric ::
  "'m \<Rightarrow> (nat \<Rightarrow> nat) \<Rightarrow> 'm CollectorMem \<Rightarrow> 'm \<Rightarrow> 'm CollectorMem"
where
  "mem_AddMetric zero grow s m =
     (let sl = storedSlice s; h = arrays s in
      if len sl < cap sl
      then s\<lparr>arrays := h(ptr sl := (h (ptr sl))[len sl := m]),
             storedSlice := sl\<lparr>len := Suc (len sl)\<rparr>\<rparr>
      else
        (let n = max (Suc (len sl)) (grow (cap sl)); a = next_addr s in
         s\<lparr>arrays := h(a := view h sl @ [m] @ replicate (n - Suc (len sl)) zero),
           next_addr := Suc a,
           storedSlice := \<lparr>ptr = a, len = Suc (len sl), cap = n\<rparr>\<rparr>))"

definition mem_ClearStoredMetric :: "'m CollectorMem \<Rightarrow> 'm CollectorMem" where
  "mem_ClearStoredMetric s =
     (let s1 = (if \<not> markStale s
                then (s\<lparr>markStale := True\<rparr>)\<lparr>staleSlice := storedSlice s\<rparr>
                else s)
      in s1\<lparr>storedSlice := empty_slice\<rparr>)"

definition mem_FinishedAllChecks :: "'m CollectorMem \<Rightarrow> 'm CollectorMem" where
  "mem_FinishedAllChecks s = (s\<lparr>staleSlice := storedSlice s\<rparr>)\<lparr>markStale := False\<rparr>"

definition mem_CollectWithStability ::
  "'m CollectorMem \<Rightarrow> 'm chan \<Rightarrow> 'm CollectorMem \<times> 'm chan"
where
  "mem_CollectWithStability s ch =
     (if markStale s
      then (s, send_range (view (arrays s) (staleSlice s)) ch)
      else (s, send_range (view (arrays s) (storedSlice s)) ch))"

fun mem_call_step ::
  "'m \<Rightarrow> (nat \<Rightarrow> nat) \<Rightarrow> 'm CollectorMem \<Rightarrow> 'm call \<Rightarrow> 'm CollectorMem"
where
  "mem_call_step zero grow s BeginCycle = mem_ClearStoredMetric s"
| "mem_call_step zero grow s (RecordSample m) = mem_AddMetric zero grow s m"
| "mem_call_step zero grow s EndCycle = mem_FinishedAllChecks s"

fun mem_run ::
  "'m \<Rightarrow> (nat \<Rightarrow> nat) \<Rightarrow> 'm CollectorMem \<Rightarrow> 'm call list \<Rightarrow> 'm CollectorMem"
where
  "mem_run zero grow s [] = s"
| "mem_run zero grow s (k # ks) = mem_run zero grow (mem_call_step zero grow s k) ks"

text \<open>
  A slice is well formed when its length is within its capacity, its capacity within its
  array, and its array allocated. The memory of a collector is well formed when both
  slices are, the array at address 0 is empty, and \<open>staleSlice\<close> is no longer than
  \<open>storedSlice\<close> whenever the two share an array.
\<close>

definition slice_ok :: "'m CollectorMem \<Rightarrow> slice \<Rightarrow> bool" where
  "slice_ok s sl =
     (len sl \<le> cap sl \<and> cap sl \<le> length (arrays s (ptr sl)) \<and> ptr sl < next_addr s)"

definition mem_inv :: "'m CollectorMem \<Rightarrow> bool" where
  "mem_inv s =
     (arrays s 0 = [] \<and> slice_ok s (storedSlice s) \<and> slice_ok s (staleSlice s) \<and>
      (ptr (staleSlice s) \<noteq> ptr (storedSlice s) \<or> len (staleSlice s) \<le> len (storedSlice s)))"

text \<open>The collector of lists that a memory shows.\<close>

definition lists_of :: "'m CollectorMem \<Rightarrow> 'm Collector" where
  "lists_of s =
     \<lparr>storedMetrics = view (arrays s) (storedSlice s),
      staleMetrics = view (arrays s) (staleSlice s),
      markStaleMetrics = markStale s\<rparr>"

section \<open>Basic facts\<close>

lemma send_range_append: "send_range ms ch = ch @ ms"
  by (induction ms arbitrary: ch) (simp_all add: send_def)

lemma scrape_eq: "scrape c = (if markStaleMetrics c then staleMetrics c else storedMetrics c)"
  by (simp add: scrape_def CollectWithStability_def send_range_append)

lemma run_append: "run c (ks @ ks') = run (run c ks) ks'"
  by (induction ks arbitrary: c) simp_all

lemma foldl_AddMetric:
  "foldl AddMetric c ms = c\<lparr>storedMetrics := storedMetrics c @ ms\<rparr>"
  by (induction ms arbitrary: c) (simp_all add: AddMetric_def)

lemma scrape_ClearStoredMetric: "scrape (ClearStoredMetric c) = scrape c"
  by (simp add: scrape_eq ClearStoredMetric_def)

lemma markStaleMetrics_ClearStoredMetric: "markStaleMetrics (ClearStoredMetric c)"
  by (simp add: ClearStoredMetric_def)

lemma scrape_call_step_open:
  "markStaleMetrics c \<Longrightarrow> k \<noteq> EndCycle \<Longrightarrow>
   markStaleMetrics (call_step c k) \<and> scrape (call_step c k) = scrape c"
  by (cases k) (simp_all add: scrape_eq ClearStoredMetric_def AddMetric_def)

lemma scrape_run_open:
  "markStaleMetrics c \<Longrightarrow> EndCycle \<notin> set ks \<Longrightarrow> scrape (run c ks) = scrape c"
proof (induction ks arbitrary: c)
  case Nil
  then show ?case by simp
next
  case (Cons k ks)
  from Cons.prems have k: "k \<noteq> EndCycle" and ks: "EndCycle \<notin> set ks" by auto
  from scrape_call_step_open [OF Cons.prems(1) k]
  have "markStaleMetrics (call_step c k)" and eq: "scrape (call_step c k) = scrape c" by simp_all
  then have "scrape (run (call_step c k) ks) = scrape (call_step c k)"
    using Cons.IH ks by blast
  with eq show ?case by simp
qed

lemma scrape_call_step_nonempty:
  "scrape c \<noteq> [] \<Longrightarrow> k \<noteq> EndCycle \<or> storedMetrics c \<noteq> [] \<Longrightarrow> scrape (call_step c k) \<noteq> []"
  by (cases k) (auto simp add: scrape_eq ClearStoredMetric_def AddMetric_def FinishedAllChecks_def)

lemma scrape_run_nonempty:
  "scrape c \<noteq> [] \<Longrightarrow> commits_nonempty c ks \<Longrightarrow> scrape (run c ks) \<noteq> []"
proof (induction ks arbitrary: c)
  case Nil
  then show ?case by simp
next
  case (Cons k ks)
  then show ?case using scrape_call_step_nonempty [of c k] by simp
qed

lemma scrape_after_EndCycle:
  "commits_nonempty c ks \<Longrightarrow> EndCycle \<in> set ks \<Longrightarrow> scrape (run c ks) \<noteq> []"
proof (induction ks arbitrary: c)
  case Nil
  then show ?case by simp
next
  case (Cons k ks)
  show ?case
  proof (cases "k = EndCycle")
    case True
    with Cons.prems have "storedMetrics c \<noteq> []" by simp
    then have "scrape (call_step c k) \<noteq> []"
      using True by (simp add: scrape_eq FinishedAllChecks_def)
    moreover from Cons.prems have "commits_nonempty (call_step c k) ks" by simp
    ultimately show ?thesis using scrape_run_nonempty by simp
  next
    case False
    with Cons.prems have "EndCycle \<in> set ks" and "commits_nonempty (call_step c k) ks"
      by simp_all
    then show ?thesis using Cons.IH by simp
  qed
qed

text \<open>Every call sequence with an \<open>EndCycle\<close> splits at its last one.\<close>

lemma last_EndCycle_split:
  "EndCycle \<in> set calls \<Longrightarrow> \<exists>pre ks. calls = pre @ EndCycle # ks \<and> EndCycle \<notin> set ks"
  by (rule split_list_last)

lemma committed_append: "committed c (ks @ ks') = committed c ks @ committed (run c ks) ks'"
  by (induction ks arbitrary: c) simp_all

lemma committed_no_EndCycle: "EndCycle \<notin> set ks \<Longrightarrow> committed c ks = []"
  by (induction ks arbitrary: c) auto

lemma last_committed:
  "EndCycle \<notin> set ks \<Longrightarrow> last (committed c (pre @ EndCycle # ks)) = storedMetrics (run c pre)"
  by (simp add: committed_append committed_no_EndCycle)

text \<open>
  While \<open>markStaleMetrics\<close> is clear the samples recorded accrete onto what is served;
  the first \<open>BeginCycle\<close> freezes it.
\<close>

lemma scrape_run_fresh:
  "\<not> markStaleMetrics c \<Longrightarrow> EndCycle \<notin> set ks \<Longrightarrow>
   scrape (run c ks) = storedMetrics c @ late_samples ks"
proof (induction ks arbitrary: c)
  case Nil
  then show ?case by (simp add: scrape_eq)
next
  case (Cons k ks)
  from Cons.prems have ks: "EndCycle \<notin> set ks" by simp
  show ?case
  proof (cases k)
    case BeginCycle
    have "scrape (run (ClearStoredMetric c) ks) = scrape (ClearStoredMetric c)"
      using scrape_run_open [OF markStaleMetrics_ClearStoredMetric ks] .
    also have "\<dots> = scrape c" by (rule scrape_ClearStoredMetric)
    also have "\<dots> = storedMetrics c" using Cons.prems(1) by (simp add: scrape_eq)
    finally show ?thesis using BeginCycle by simp
  next
    case (RecordSample m)
    have "\<not> markStaleMetrics (AddMetric c m)"
      using Cons.prems(1) by (simp add: AddMetric_def)
    from Cons.IH [OF this ks] RecordSample show ?thesis
      by (simp add: AddMetric_def)
  next
    case EndCycle
    with Cons.prems show ?thesis by simp
  qed
qed

lemma scrape_after_last_EndCycle:
  assumes "EndCycle \<notin> set ks"
  shows "scrape (run c (pre @ EndCycle # ks)) = storedMetrics (run c pre) @ late_samples ks"
proof -
  have "\<not> markStaleMetrics (FinishedAllChecks (run c pre))"
    by (simp add: FinishedAllChecks_def)
  from scrape_run_fresh [OF this assms] show ?thesis
    by (simp add: run_append FinishedAllChecks_def)
qed

section \<open>The lists are what the slices show\<close>

text \<open>
  Every method keeps the memory well formed, and the lists that the memory shows after
  the call are the lists that the method on lists computes. The writes of
  \<open>mem_AddMetric\<close> are the only place where sharing could matter.
\<close>

lemma mem_New_refines: "mem_inv mem_New \<and> lists_of mem_New = NewMetricsCollector"
  by (simp add: mem_inv_def mem_New_def slice_ok_def empty_slice_def lists_of_def view_def
      NewMetricsCollector_def)

lemma written_ptr_pos:
  "h 0 = [] \<Longrightarrow> n < length (h p) \<Longrightarrow> 0 < (p::nat)"
  by (rule ccontr) simp

lemma slice_ptr_pos:
  assumes "arrays s 0 = []" and "slice_ok s sl" and "0 < len sl"
  shows "0 < ptr sl"
proof -
  from assms(2,3) have "0 < length (arrays s (ptr sl))"
    unfolding slice_ok_def by linarith
  with assms(1) show ?thesis by (rule written_ptr_pos)
qed

lemma mem_ClearStoredMetric_refines:
  assumes "mem_inv s"
  shows "mem_inv (mem_ClearStoredMetric s)"
    and "lists_of (mem_ClearStoredMetric s) = ClearStoredMetric (lists_of s)"
proof -
  from assms have z: "arrays s 0 = []" and n: "0 < next_addr s"
    by (auto simp add: mem_inv_def slice_ok_def)
  have e: "slice_ok s empty_slice" using n by (simp add: slice_ok_def empty_slice_def)
  from assms have ok: "slice_ok s (storedSlice s)" "slice_ok s (staleSlice s)"
    by (simp_all add: mem_inv_def)
  show "mem_inv (mem_ClearStoredMetric s)"
    using assms e slice_ptr_pos [OF z ok(1)] slice_ptr_pos [OF z ok(2)]
    by (auto simp add: mem_inv_def mem_ClearStoredMetric_def slice_ok_def empty_slice_def)
  show "lists_of (mem_ClearStoredMetric s) = ClearStoredMetric (lists_of s)"
    by (simp add: lists_of_def mem_ClearStoredMetric_def ClearStoredMetric_def view_def
        empty_slice_def)
qed

lemma mem_FinishedAllChecks_refines:
  assumes "mem_inv s"
  shows "mem_inv (mem_FinishedAllChecks s)"
    and "lists_of (mem_FinishedAllChecks s) = FinishedAllChecks (lists_of s)"
  using assms
  by (simp_all add: mem_inv_def mem_FinishedAllChecks_def slice_ok_def lists_of_def
      FinishedAllChecks_def)

lemma mem_CollectWithStability_refines:
  "mem_CollectWithStability s ch = (s, snd (CollectWithStability (lists_of s) ch))"
  by (simp add: mem_CollectWithStability_def CollectWithStability_def lists_of_def)

text \<open>
  The write in place: the cell written is the first one past \<open>storedSlice\<close>, which no
  cell that \<open>staleSlice\<close> shows can be.
\<close>

lemma mem_AddMetric_in_place:
  assumes "mem_inv s" and "len (storedSlice s) < cap (storedSlice s)"
  shows "mem_inv (mem_AddMetric zero grow s m)"
    and "lists_of (mem_AddMetric zero grow s m) = AddMetric (lists_of s) m"
proof -
  let ?sl = "storedSlice s" and ?st = "staleSlice s" and ?h = "arrays s"
  from assms have ok: "slice_ok s ?sl" "slice_ok s ?st" and z: "?h 0 = []"
    and sh: "ptr ?st \<noteq> ptr ?sl \<or> len ?st \<le> len ?sl"
    by (simp_all add: mem_inv_def)
  from ok assms(2) have lt: "len ?sl < length (?h (ptr ?sl))" by (simp add: slice_ok_def)
  with z have nz: "ptr ?sl \<noteq> 0"
    using written_ptr_pos [of ?h "len ?sl" "ptr ?sl"] by simp
  have eq: "mem_AddMetric zero grow s m =
      s\<lparr>arrays := ?h(ptr ?sl := (?h (ptr ?sl))[len ?sl := m]),
        storedSlice := ?sl\<lparr>len := Suc (len ?sl)\<rparr>\<rparr>"
    using assms(2) by (simp add: mem_AddMetric_def Let_def)
  show "mem_inv (mem_AddMetric zero grow s m)"
    unfolding eq using ok z sh nz assms(2)
    by (auto simp add: mem_inv_def slice_ok_def)
  have v1: "take (Suc (len ?sl)) ((?h (ptr ?sl))[len ?sl := m])
      = take (len ?sl) (?h (ptr ?sl)) @ [m]"
    using lt by (simp add: take_Suc_conv_app_nth)
  have v2: "view (?h(ptr ?sl := (?h (ptr ?sl))[len ?sl := m])) ?st = view ?h ?st"
    using sh by (auto simp add: view_def)
  show "lists_of (mem_AddMetric zero grow s m) = AddMetric (lists_of s) m"
    unfolding eq using v1 v2 by (simp add: lists_of_def AddMetric_def view_def)
qed

text \<open>The move to a new array: the new address is the array of no slice yet.\<close>

lemma mem_AddMetric_grow:
  assumes "mem_inv s" and "\<not> len (storedSlice s) < cap (storedSlice s)"
  shows "mem_inv (mem_AddMetric zero grow s m)"
    and "lists_of (mem_AddMetric zero grow s m) = AddMetric (lists_of s) m"
proof -
  let ?sl = "storedSlice s" and ?st = "staleSlice s" and ?h = "arrays s"
  let ?n = "max (Suc (len ?sl)) (grow (cap ?sl))" and ?a = "next_addr s"
  let ?arr = "view ?h ?sl @ [m] @ replicate (?n - Suc (len ?sl)) zero"
  from assms have ok: "slice_ok s ?sl" "slice_ok s ?st" and z: "?h 0 = []"
    by (simp_all add: mem_inv_def)
  from ok have lv: "length (view ?h ?sl) = len ?sl" by (simp add: view_def slice_ok_def)
  from ok have na: "ptr ?st \<noteq> ?a" "?a \<noteq> 0" by (auto simp add: slice_ok_def)
  have eq: "mem_AddMetric zero grow s m =
      s\<lparr>arrays := ?h(?a := ?arr), next_addr := Suc ?a,
        storedSlice := \<lparr>ptr = ?a, len = Suc (len ?sl), cap = ?n\<rparr>\<rparr>"
    using assms(2) by (simp add: mem_AddMetric_def Let_def)
  show "mem_inv (mem_AddMetric zero grow s m)"
    unfolding eq using ok z na lv
    by (auto simp add: mem_inv_def slice_ok_def)
  show "lists_of (mem_AddMetric zero grow s m) = AddMetric (lists_of s) m"
    unfolding eq using na lv by (simp add: lists_of_def AddMetric_def view_def)
qed

lemma mem_AddMetric_refines:
  assumes "mem_inv s"
  shows "mem_inv (mem_AddMetric zero grow s m)"
    and "lists_of (mem_AddMetric zero grow s m) = AddMetric (lists_of s) m"
  using assms mem_AddMetric_in_place [of s zero grow m] mem_AddMetric_grow [of s zero grow m]
  by blast+

lemma mem_call_step_refines:
  assumes "mem_inv s"
  shows "mem_inv (mem_call_step zero grow s k)"
    and "lists_of (mem_call_step zero grow s k) = call_step (lists_of s) k"
  using assms
  by (cases k; simp add: mem_ClearStoredMetric_refines mem_AddMetric_refines
      mem_FinishedAllChecks_refines)+

lemma mem_run_refines:
  "mem_inv s \<Longrightarrow>
   mem_inv (mem_run zero grow s ks) \<and> lists_of (mem_run zero grow s ks) = run (lists_of s) ks"
proof (induction ks arbitrary: s)
  case Nil
  then show ?case by simp
next
  case (Cons k ks)
  from Cons.prems have "mem_inv (mem_call_step zero grow s k)"
    by (rule mem_call_step_refines)
  from Cons.IH [OF this] Cons.prems show ?case
    by (simp add: mem_call_step_refines)
qed

text \<open>
  So a scrape of the memory reached from a new collector by any calls, with any growth
  policy, receives what a scrape of the lists receives.
\<close>

lemma mem_scrape_refines:
  "snd (mem_CollectWithStability (mem_run zero grow mem_New ks) [])
     = scrape (run NewMetricsCollector ks)"
proof -
  have i: "mem_inv (mem_New :: 'a CollectorMem)"
    and n: "lists_of (mem_New :: 'a CollectorMem) = NewMetricsCollector"
    using mem_New_refines by blast+
  from mem_run_refines [OF i]
  have "lists_of (mem_run zero grow mem_New ks) = run (lists_of mem_New) ks" by blast
  with n show ?thesis
    by (simp add: mem_CollectWithStability_refines scrape_def)
qed

text \<open>
  Sharing does happen: with room for four elements in a new array, the sample added after
  \<open>EndCycle\<close> is written into the array that \<open>staleSlice\<close> views as well, one cell
  past its end.
\<close>

lemma mem_sharing_example:
  "ptr (staleSlice (mem_run (0::nat) (\<lambda>c. 4) mem_New [RecordSample 1, EndCycle, RecordSample 2]))
     = ptr (storedSlice (mem_run 0 (\<lambda>c. 4) mem_New [RecordSample 1, EndCycle, RecordSample 2])) \<and>
   arrays (mem_run (0::nat) (\<lambda>c. 4) mem_New [RecordSample 1, EndCycle, RecordSample 2]) 1
     = [1, 2, 0, 0] \<and>
   lists_of (mem_run (0::nat) (\<lambda>c. 4) mem_New [RecordSample 1, EndCycle, RecordSample 2])
     = \<lparr>storedMetrics = [1, 2], staleMetrics = [1], markStaleMetrics = False\<rparr>"
  by (simp add: mem_New_def mem_AddMetric_def mem_FinishedAllChecks_def empty_slice_def
      view_def lists_of_def Let_def numeral_eq_Suc)

section \<open>The claims\<close>

subsection \<open>C1: a second BeginCycle loses nothing\<close>

text \<open>
  Claim C1. For every state of the collector, \<^verbatim>\<open>ClearStoredMetric\<close> called twice with
  no \<^verbatim>\<open>FinishedAllChecks\<close> between the calls gives the same scrape as
  \<^verbatim>\<open>ClearStoredMetric\<close> called once: the second call changes neither
  \<^verbatim>\<open>staleMetrics\<close> nor \<^verbatim>\<open>markStaleMetrics\<close>. This also holds when samples are
  added between the two calls.
\<close>

theorem stacked_BeginCycle_keeps_scrape:
  "scrape (ClearStoredMetric (ClearStoredMetric c)) = scrape (ClearStoredMetric c) \<and>
   staleMetrics (ClearStoredMetric (ClearStoredMetric c)) = staleMetrics (ClearStoredMetric c) \<and>
   markStaleMetrics (ClearStoredMetric (ClearStoredMetric c))
     = markStaleMetrics (ClearStoredMetric c) \<and>
   scrape (ClearStoredMetric (foldl AddMetric (ClearStoredMetric c) ms))
     = scrape (ClearStoredMetric c) \<and>
   staleMetrics (ClearStoredMetric (foldl AddMetric (ClearStoredMetric c) ms))
     = staleMetrics (ClearStoredMetric c) \<and>
   markStaleMetrics (ClearStoredMetric (foldl AddMetric (ClearStoredMetric c) ms))
     = markStaleMetrics (ClearStoredMetric c)"
  by (simp add: scrape_eq ClearStoredMetric_def foldl_AddMetric)

subsection \<open>C2: no gap while a cycle is open\<close>

text \<open>
  As the claim states it, a scrape after the first completed cycle returns a non-empty
  generation that an earlier \<open>EndCycle\<close> committed. Neither part holds for every call
  sequence. A cycle that records no sample is committed as the empty generation, and the
  scrape is empty from then on; the same happens after a cycle with samples once a later
  cycle commits none. And a sample recorded after \<open>EndCycle\<close> lands in
  \<^verbatim>\<open>storedMetrics\<close>, which is what is served then: after the cycle that committed
  \<open>[1]\<close> and one more \<open>RecordSample\<close> the scrape is \<open>[1, 2]\<close>, which no
  \<open>EndCycle\<close> has committed.
\<close>

theorem no_visible_gap_counterexample:
  "completed_cycle False [BeginCycle, EndCycle :: nat call] \<and>
   scrape (run (NewMetricsCollector :: nat Collector) [BeginCycle, EndCycle]) = [] \<and>
   completed_cycle False [BeginCycle, RecordSample (1::nat), EndCycle, BeginCycle, EndCycle] \<and>
   scrape (run (NewMetricsCollector :: nat Collector)
      [BeginCycle, RecordSample 1, EndCycle, BeginCycle, EndCycle]) = [] \<and>
   completed_cycle False [BeginCycle, RecordSample (1::nat), EndCycle, RecordSample 2] \<and>
   committed (NewMetricsCollector :: nat Collector)
      [BeginCycle, RecordSample 1, EndCycle, RecordSample 2] = [[1]] \<and>
   scrape (run (NewMetricsCollector :: nat Collector)
      [BeginCycle, RecordSample 1, EndCycle, RecordSample 2]) = [1, 2] \<and>
   scrape (run (NewMetricsCollector :: nat Collector)
      [BeginCycle, RecordSample 1, EndCycle, RecordSample 2])
     \<notin> set (committed (NewMetricsCollector :: nat Collector)
          [BeginCycle, RecordSample 1, EndCycle, RecordSample 2])"
  by (simp add: NewMetricsCollector_def ClearStoredMetric_def AddMetric_def
      FinishedAllChecks_def scrape_eq)

text \<open>
  Claim C2, as amended. For every state and every call sequence, at every point after an
  \<open>EndCycle\<close> (the calls \<open>pre\<close>, the last \<open>EndCycle\<close>, and the calls \<open>ks\<close>
  since, none of them an \<open>EndCycle\<close>) a scrape returns the generation committed by
  that last \<open>EndCycle\<close>, which is the \<^verbatim>\<open>storedMetrics\<close> it found, followed by the
  samples recorded after it and before the next \<open>BeginCycle\<close>; when no sample is
  recorded between the two, the scrape is exactly a committed generation. When every
  \<open>EndCycle\<close> of the sequence finds \<^verbatim>\<open>storedMetrics\<close> non-empty, a scrape at any
  point after an \<open>EndCycle\<close> is non-empty. And for every state, a \<open>BeginCycle\<close>
  followed by any calls other than \<open>EndCycle\<close> leaves a scrape returning exactly what
  it returned before that \<open>BeginCycle\<close>.
\<close>

theorem no_visible_gap:
  "(EndCycle \<notin> set ks \<longrightarrow>
      scrape (run c (pre @ EndCycle # ks))
        = last (committed c (pre @ EndCycle # ks)) @ late_samples ks \<and>
      last (committed c (pre @ EndCycle # ks)) = storedMetrics (run c pre)) \<and>
   (EndCycle \<notin> set ks \<and> late_samples ks = [] \<longrightarrow>
      scrape (run c (pre @ EndCycle # ks)) \<in> set (committed c (pre @ EndCycle # ks))) \<and>
   (commits_nonempty c calls \<and> EndCycle \<in> set calls \<longrightarrow> scrape (run c calls) \<noteq> []) \<and>
   (EndCycle \<notin> set ks \<longrightarrow> scrape (run (ClearStoredMetric c) ks) = scrape c)"
proof (intro conjI impI)
  assume ks: "EndCycle \<notin> set ks"
  show "last (committed c (pre @ EndCycle # ks)) = storedMetrics (run c pre)"
    using ks by (rule last_committed)
  then show "scrape (run c (pre @ EndCycle # ks))
      = last (committed c (pre @ EndCycle # ks)) @ late_samples ks"
    using scrape_after_last_EndCycle [OF ks] by simp
next
  assume "EndCycle \<notin> set ks \<and> late_samples ks = []"
  then have "scrape (run c (pre @ EndCycle # ks)) = storedMetrics (run c pre)"
    using scrape_after_last_EndCycle [of ks c pre] by simp
  then show "scrape (run c (pre @ EndCycle # ks)) \<in> set (committed c (pre @ EndCycle # ks))"
    by (simp add: committed_append)
next
  assume "commits_nonempty c calls \<and> EndCycle \<in> set calls"
  then show "scrape (run c calls) \<noteq> []" using scrape_after_EndCycle by blast
next
  assume "EndCycle \<notin> set ks"
  then have "scrape (run (ClearStoredMetric c) ks) = scrape (ClearStoredMetric c)"
    using scrape_run_open markStaleMetrics_ClearStoredMetric by blast
  then show "scrape (run (ClearStoredMetric c) ks) = scrape c"
    by (simp add: scrape_ClearStoredMetric)
qed

text \<open>
  The theorem on a new collector, after the cycle that commits \<open>[1]\<close>: with a sample
  recorded late and then an open cycle the scrape is \<open>[1, 2]\<close>; with the open cycle
  alone it is the committed \<open>[1]\<close>; and from the state after that first cycle a
  \<open>BeginCycle\<close> and an open cycle started twice leave the scrape at \<open>[1]\<close>.
\<close>

theorem no_visible_gap_witness:
  "EndCycle \<notin> set [RecordSample (2::nat), BeginCycle, RecordSample 3] \<and>
   late_samples [RecordSample (2::nat), BeginCycle, RecordSample 3] = [2] \<and>
   last (committed (NewMetricsCollector :: nat Collector)
     ([BeginCycle, RecordSample 1] @ EndCycle # [RecordSample 2, BeginCycle, RecordSample 3]))
     = [1] \<and>
   scrape (run (NewMetricsCollector :: nat Collector)
     ([BeginCycle, RecordSample 1] @ EndCycle # [RecordSample 2, BeginCycle, RecordSample 3]))
     = [1, 2] \<and>
   EndCycle \<notin> set [BeginCycle, RecordSample (3::nat)] \<and>
   late_samples [BeginCycle, RecordSample (3::nat)] = [] \<and>
   scrape (run (NewMetricsCollector :: nat Collector)
     ([BeginCycle, RecordSample 1] @ EndCycle # [BeginCycle, RecordSample 3]))
     \<in> set (committed (NewMetricsCollector :: nat Collector)
          ([BeginCycle, RecordSample 1] @ EndCycle # [BeginCycle, RecordSample 3])) \<and>
   commits_nonempty (NewMetricsCollector :: nat Collector)
     [BeginCycle, RecordSample 1, EndCycle, RecordSample 2, BeginCycle, RecordSample 3] \<and>
   EndCycle \<in> set [BeginCycle, RecordSample (1::nat), EndCycle, RecordSample 2, BeginCycle,
     RecordSample 3] \<and>
   scrape (run (NewMetricsCollector :: nat Collector)
     [BeginCycle, RecordSample 1, EndCycle, RecordSample 2, BeginCycle, RecordSample 3]) \<noteq> [] \<and>
   scrape (run (NewMetricsCollector :: nat Collector) [BeginCycle, RecordSample 1, EndCycle])
     = [1] \<and>
   scrape (run
     (ClearStoredMetric
       (run (NewMetricsCollector :: nat Collector) [BeginCycle, RecordSample 1, EndCycle]))
     [RecordSample 2, BeginCycle, RecordSample 3]) = [1]"
  using no_visible_gap
    [of "[RecordSample 2, BeginCycle, RecordSample 3]" "NewMetricsCollector :: nat Collector"
      "[BeginCycle, RecordSample 1]"
      "[BeginCycle, RecordSample 1, EndCycle, RecordSample 2, BeginCycle, RecordSample 3]"]
    no_visible_gap
    [of "[BeginCycle, RecordSample 3]" "NewMetricsCollector :: nat Collector"
      "[BeginCycle, RecordSample 1]" "[]"]
    no_visible_gap
    [of "[RecordSample 2, BeginCycle, RecordSample 3]"
      "run (NewMetricsCollector :: nat Collector) [BeginCycle, RecordSample 1, EndCycle]"
      "[]" "[]"]
  by (simp add: NewMetricsCollector_def ClearStoredMetric_def AddMetric_def
      FinishedAllChecks_def scrape_eq)

subsection \<open>C3: BeginCycle while the stale generation is served\<close>

text \<open>
  As the claim states it, \<^verbatim>\<open>ClearStoredMetric\<close> leaves the whole state as it was when
  \<^verbatim>\<open>markStaleMetrics\<close> is set. The assignment of the empty slice to
  \<^verbatim>\<open>storedMetrics\<close> stands after the \<^verbatim>\<open>if\<close>, so the samples of the unfinished cycle
  go: after \<open>BeginCycle\<close> and one \<open>RecordSample\<close> a second \<open>BeginCycle\<close>
  changes the state.
\<close>

theorem BeginCycle_when_stale_counterexample:
  "markStaleMetrics (AddMetric (ClearStoredMetric (NewMetricsCollector :: nat Collector)) 1) \<and>
   ClearStoredMetric (AddMetric (ClearStoredMetric (NewMetricsCollector :: nat Collector)) 1)
     \<noteq> AddMetric (ClearStoredMetric (NewMetricsCollector :: nat Collector)) 1 \<and>
   storedMetrics (AddMetric (ClearStoredMetric (NewMetricsCollector :: nat Collector)) 1) = [1] \<and>
   storedMetrics (ClearStoredMetric
     (AddMetric (ClearStoredMetric (NewMetricsCollector :: nat Collector)) 1)) = []"
  by (simp add: NewMetricsCollector_def ClearStoredMetric_def AddMetric_def)

text \<open>
  Claim C3, as amended. For every state in which \<^verbatim>\<open>markStaleMetrics\<close> is already set,
  \<^verbatim>\<open>ClearStoredMetric\<close> leaves \<^verbatim>\<open>staleMetrics\<close> and \<^verbatim>\<open>markStaleMetrics\<close> as they
  were and sets \<^verbatim>\<open>storedMetrics\<close> to the empty sequence; the whole state is unchanged
  exactly when \<^verbatim>\<open>storedMetrics\<close> was empty at entry.
\<close>

theorem BeginCycle_when_stale:
  "markStaleMetrics c \<Longrightarrow>
   ClearStoredMetric c = c\<lparr>storedMetrics := []\<rparr> \<and>
   staleMetrics (ClearStoredMetric c) = staleMetrics c \<and>
   markStaleMetrics (ClearStoredMetric c) \<and>
   storedMetrics (ClearStoredMetric c) = [] \<and>
   (ClearStoredMetric c = c) = (storedMetrics c = [])"
proof -
  assume m: "markStaleMetrics c"
  then have eq: "ClearStoredMetric c = c\<lparr>storedMetrics := []\<rparr>"
    by (simp add: ClearStoredMetric_def)
  have "(c\<lparr>storedMetrics := []\<rparr> = c) = (storedMetrics c = [])"
  proof
    assume "c\<lparr>storedMetrics := []\<rparr> = c"
    then have "storedMetrics (c\<lparr>storedMetrics := []\<rparr>) = storedMetrics c" by simp
    then show "storedMetrics c = []" by simp
  next
    assume "storedMetrics c = []"
    then show "c\<lparr>storedMetrics := []\<rparr> = c" by simp
  qed
  with eq m show ?thesis by simp
qed

theorem BeginCycle_when_stale_witness:
  "markStaleMetrics \<lparr>storedMetrics = [7::nat], staleMetrics = [3, 4], markStaleMetrics = True\<rparr> \<and>
   ClearStoredMetric \<lparr>storedMetrics = [7::nat], staleMetrics = [3, 4], markStaleMetrics = True\<rparr>
     = \<lparr>storedMetrics = [], staleMetrics = [3, 4], markStaleMetrics = True\<rparr>"
  using BeginCycle_when_stale
    [of "\<lparr>storedMetrics = [7::nat], staleMetrics = [3, 4], markStaleMetrics = True\<rparr>"]
  by simp

subsection \<open>C4: a completed cycle is served as recorded\<close>

text \<open>
  Claim C4. For every state, after \<^verbatim>\<open>ClearStoredMetric\<close>, \<^verbatim>\<open>AddMetric(a)\<close>,
  \<^verbatim>\<open>AddMetric(b)\<close> and \<^verbatim>\<open>FinishedAllChecks\<close> a scrape returns exactly \<open>[a, b]\<close>, in
  that order, with nothing of an earlier generation left; and on a new collector the
  calls \<open>RecordSample x\<close>, \<open>EndCycle\<close>, \<open>BeginCycle\<close>, \<open>RecordSample y\<close>,
  \<open>EndCycle\<close> leave a scrape returning \<open>[y]\<close>.
\<close>

theorem fresh_supersedes_stale:
  "scrape (FinishedAllChecks (AddMetric (AddMetric (ClearStoredMetric c) a) b)) = [a, b] \<and>
   storedMetrics (FinishedAllChecks (AddMetric (AddMetric (ClearStoredMetric c) a) b)) = [a, b] \<and>
   staleMetrics (FinishedAllChecks (AddMetric (AddMetric (ClearStoredMetric c) a) b)) = [a, b] \<and>
   markStaleMetrics (FinishedAllChecks (AddMetric (AddMetric (ClearStoredMetric c) a) b)) = False \<and>
   scrape (run c [BeginCycle, RecordSample a, RecordSample b, EndCycle]) = [a, b] \<and>
   scrape (run NewMetricsCollector
     [RecordSample x, EndCycle, BeginCycle, RecordSample y, EndCycle]) = [y]"
  by (simp add: scrape_eq FinishedAllChecks_def AddMetric_def ClearStoredMetric_def
      NewMetricsCollector_def)

subsection \<open>C5: the descriptors\<close>

text \<open>
  As the claim states it, the label set of the third descriptor is
  \<open>{cbt_mismatch_flag}\<close>. The source builds \<^verbatim>\<open>CbtMismatchMetric\<close> with the one label
  \<^verbatim>\<open>cbtMismatchLabel\<close>, whose value is \<^verbatim>\<open>"cbt"\<close>.
\<close>

theorem Describe_cbt_label_counterexample:
  "length (descriptors (NewMetricsCollector :: nat Collector)) = 3 \<and>
   set (variableLabels (descriptors (NewMetricsCollector :: nat Collector) ! 2)) = {''cbt''} \<and>
   set (variableLabels (descriptors (NewMetricsCollector :: nat Collector) ! 2))
     \<noteq> {''cbt_mismatch_flag''}"
  by (simp add: DescribeWithStability_def descriptors_def send_def
      CbtMismatchMetric_def NewDesc_def cbtMismatchLabel_def)

text \<open>
  Claim C5, as amended. For every state of the collector and every channel,
  \<^verbatim>\<open>DescribeWithStability\<close> sends exactly three descriptors, \<^verbatim>\<open>EsxiVersionMetric\<close>,
  \<^verbatim>\<open>HwVersionMetric\<close> and \<^verbatim>\<open>CbtMismatchMetric\<close> in this order, whose labels are
  \<open>version, api_version\<close>, then \<open>hw_version\<close>, then \<open>cbt\<close>; what it sends does
  not depend on the state, and the state is left as it was.
\<close>

theorem Describe_fixed:
  "DescribeWithStability c ch
     = (c, ch @ [EsxiVersionMetric, HwVersionMetric, CbtMismatchMetric]) \<and>
   descriptors c = [EsxiVersionMetric, HwVersionMetric, CbtMismatchMetric] \<and>
   variableLabels EsxiVersionMetric = [''version'', ''api_version''] \<and>
   variableLabels HwVersionMetric = [''hw_version''] \<and>
   variableLabels CbtMismatchMetric = [''cbt'']"
  by (simp add: DescribeWithStability_def descriptors_def send_def EsxiVersionMetric_def
      HwVersionMetric_def CbtMismatchMetric_def NewDesc_def VersionLabel_def
      ApiVersionLabel_def HwVersionLabel_def cbtMismatchLabel_def)

subsection \<open>C6: BeginCycle in the normal case\<close>

text \<open>
  Claim C6. For every state in which \<^verbatim>\<open>markStaleMetrics\<close> is false,
  \<^verbatim>\<open>ClearStoredMetric\<close> sets \<^verbatim>\<open>staleMetrics\<close> to the sequence that
  \<^verbatim>\<open>storedMetrics\<close> held at entry, sets \<^verbatim>\<open>markStaleMetrics\<close> and resets
  \<^verbatim>\<open>storedMetrics\<close> to the empty sequence.
\<close>

theorem BeginCycle_normal_case:
  "\<not> markStaleMetrics c \<Longrightarrow>
   staleMetrics (ClearStoredMetric c) = storedMetrics c \<and>
   markStaleMetrics (ClearStoredMetric c) = True \<and>
   storedMetrics (ClearStoredMetric c) = [] \<and>
   ClearStoredMetric c =
     c\<lparr>storedMetrics := [], staleMetrics := storedMetrics c, markStaleMetrics := True\<rparr>"
  by (simp add: ClearStoredMetric_def)

theorem BeginCycle_normal_case_witness:
  "\<not> markStaleMetrics
      \<lparr>storedMetrics = [1::nat, 2], staleMetrics = [9], markStaleMetrics = False\<rparr> \<and>
   ClearStoredMetric \<lparr>storedMetrics = [1::nat, 2], staleMetrics = [9], markStaleMetrics = False\<rparr>
     = \<lparr>storedMetrics = [], staleMetrics = [1, 2], markStaleMetrics = True\<rparr>"
  using BeginCycle_normal_case
    [of "\<lparr>storedMetrics = [1::nat, 2], staleMetrics = [9], markStaleMetrics = False\<rparr>"]
  by simp

subsection \<open>C7: EndCycle\<close>

text \<open>
  Claim C7. For every state, \<^verbatim>\<open>FinishedAllChecks\<close> sets \<^verbatim>\<open>staleMetrics\<close> to
  \<^verbatim>\<open>storedMetrics\<close>, clears \<^verbatim>\<open>markStaleMetrics\<close> and leaves \<^verbatim>\<open>storedMetrics\<close>
  as it was, so that afterwards both fields hold the same sequence.
\<close>

theorem EndCycle_effect:
  "staleMetrics (FinishedAllChecks c) = storedMetrics c \<and>
   markStaleMetrics (FinishedAllChecks c) = False \<and>
   storedMetrics (FinishedAllChecks c) = storedMetrics c \<and>
   staleMetrics (FinishedAllChecks c) = storedMetrics (FinishedAllChecks c) \<and>
   FinishedAllChecks c = c\<lparr>staleMetrics := storedMetrics c, markStaleMetrics := False\<rparr>"
  by (simp add: FinishedAllChecks_def)

subsection \<open>C8: Collect serves one generation\<close>

text \<open>
  Claim C8. For every state and every channel, \<^verbatim>\<open>CollectWithStability\<close> sends exactly
  the sequence \<^verbatim>\<open>staleMetrics\<close> when \<^verbatim>\<open>markStaleMetrics\<close> is set and exactly the
  sequence \<^verbatim>\<open>storedMetrics\<close> when it is not, whole and in order, with no element of
  the other sequence, and leaves the state as it was.
\<close>

theorem Collect_one_generation:
  "fst (CollectWithStability c ch) = c \<and>
   snd (CollectWithStability c ch)
     = ch @ (if markStaleMetrics c then staleMetrics c else storedMetrics c) \<and>
   (markStaleMetrics c \<longrightarrow> scrape c = staleMetrics c) \<and>
   (\<not> markStaleMetrics c \<longrightarrow> scrape c = storedMetrics c)"
  by (simp add: CollectWithStability_def scrape_def send_range_append)

theorem Collect_one_generation_witness:
  "markStaleMetrics
      \<lparr>storedMetrics = [5::nat], staleMetrics = [3, 4], markStaleMetrics = True\<rparr> \<and>
   scrape \<lparr>storedMetrics = [5::nat], staleMetrics = [3, 4], markStaleMetrics = True\<rparr>
     = [3, 4] \<and>
   \<not> markStaleMetrics
      \<lparr>storedMetrics = [5::nat], staleMetrics = [3, 4], markStaleMetrics = False\<rparr> \<and>
   scrape \<lparr>storedMetrics = [5::nat], staleMetrics = [3, 4], markStaleMetrics = False\<rparr>
     = [5]"
  using Collect_one_generation
      [of "\<lparr>storedMetrics = [5::nat], staleMetrics = [3, 4], markStaleMetrics = True\<rparr>" "[]"]
    Collect_one_generation
      [of "\<lparr>storedMetrics = [5::nat], staleMetrics = [3, 4], markStaleMetrics = False\<rparr>" "[]"]
  by simp

subsection \<open>C9: RecordSample\<close>

text \<open>
  Claim C9. For every state and every sample, \<^verbatim>\<open>AddMetric\<close> puts the sample at the end
  of \<^verbatim>\<open>storedMetrics\<close>, which grows by exactly one element, and leaves
  \<^verbatim>\<open>staleMetrics\<close> and \<^verbatim>\<open>markStaleMetrics\<close> as they were; it has no failing
  branch. On a new collector, \<^verbatim>\<open>AddMetric(x)\<close> leaves a scrape returning \<open>[x]\<close>.
\<close>

theorem RecordSample_appends:
  "AddMetric c m = c\<lparr>storedMetrics := storedMetrics c @ [m]\<rparr> \<and>
   storedMetrics (AddMetric c m) = storedMetrics c @ [m] \<and>
   last (storedMetrics (AddMetric c m)) = m \<and>
   length (storedMetrics (AddMetric c m)) = Suc (length (storedMetrics c)) \<and>
   staleMetrics (AddMetric c m) = staleMetrics c \<and>
   markStaleMetrics (AddMetric c m) = markStaleMetrics c \<and>
   scrape (AddMetric NewMetricsCollector x) = [x]"
  by (simp add: AddMetric_def scrape_eq NewMetricsCollector_def)

subsection \<open>C10: BeginCycle always clears\<close>

text \<open>
  Claim C10. For every state, also one in which \<^verbatim>\<open>markStaleMetrics\<close> is already set,
  after \<^verbatim>\<open>ClearStoredMetric\<close> the sequence \<^verbatim>\<open>storedMetrics\<close> is empty and
  \<^verbatim>\<open>markStaleMetrics\<close> is set.
\<close>

theorem BeginCycle_always_clears:
  "storedMetrics (ClearStoredMetric c) = [] \<and> markStaleMetrics (ClearStoredMetric c) = True"
  by (simp add: ClearStoredMetric_def)

end
